theory Spec2Isabelle
  imports Complex_Main
begin

section \<open>NumPy values and arrays\<close>

text \<open>
  The arrays of \<^verbatim>\<open>empca.py\<close> hold IEEE doubles. A value is modelled as a finite
  number, idealised as a real (rounding is not modelled), or as \<open>NaN\<close>.
  \<open>NaN\<close> is absorbing for the four arithmetic operations, as in IEEE arithmetic;
  in particular \<open>0 * NaN = NaN\<close>. A division by zero, which NumPy evaluates to
  \<open>nan\<close> or to an infinity (with a warning, not an exception), is \<open>NaN\<close> here:
  infinities are not modelled separately.
\<close>

datatype npfloat = Fin real | NaN

instantiation npfloat :: "{comm_monoid_add, comm_monoid_mult, minus, inverse}"
begin

definition zero_npfloat :: npfloat where
  "zero_npfloat = Fin 0"

definition one_npfloat :: npfloat where
  "one_npfloat = Fin 1"

fun plus_npfloat :: "npfloat \<Rightarrow> npfloat \<Rightarrow> npfloat" where
  "plus_npfloat (Fin a) (Fin b) = Fin (a + b)"
| "plus_npfloat _ _ = NaN"

fun times_npfloat :: "npfloat \<Rightarrow> npfloat \<Rightarrow> npfloat" where
  "times_npfloat (Fin a) (Fin b) = Fin (a * b)"
| "times_npfloat _ _ = NaN"

fun minus_npfloat :: "npfloat \<Rightarrow> npfloat \<Rightarrow> npfloat" where
  "minus_npfloat (Fin a) (Fin b) = Fin (a - b)"
| "minus_npfloat _ _ = NaN"

fun divide_npfloat :: "npfloat \<Rightarrow> npfloat \<Rightarrow> npfloat" where
  "divide_npfloat (Fin a) (Fin b) = (if b = 0 then NaN else Fin (a / b))"
| "divide_npfloat _ _ = NaN"

fun inverse_npfloat :: "npfloat \<Rightarrow> npfloat" where
  "inverse_npfloat (Fin a) = (if a = 0 then NaN else Fin (1 / a))"
| "inverse_npfloat NaN = NaN"

instance
proof
  fix x y z :: npfloat
  show "x * y = y * x"
    by (cases x; cases y; simp)
  show "x + y = y + x"
    by (cases x; cases y; simp)
  show "1 * x = x"
    unfolding one_npfloat_def by (cases x; simp)
  show "0 + x = x"
    unfolding zero_npfloat_def by (cases x; simp)
  show "(x * y) * z = x * (y * z)"
    by (cases x; cases y; cases z; simp)
  show "(x + y) + z = x + (y + z)"
    by (cases x; cases y; cases z; simp)
qed

end

type_synonym vec = "npfloat list"
type_synonym matrix = "npfloat list list"

text \<open>
  A two-dimensional array is the list of its rows. \<open>wf_mat n d A\<close> says that \<open>A\<close> has
  shape \<open>(n, d)\<close>. An array without rows does not record its column count, so the
  operations below take the shapes they need as arguments, read off the \<^verbatim>\<open>.shape\<close>
  of an array that has rows. As an input, the empty list is the array of shape
  \<open>(0, 0)\<close>; an input of shape \<open>(0, d)\<close> with \<open>d > 0\<close> has no representation.
\<close>

definition nrows :: "matrix \<Rightarrow> nat" where
  "nrows A = length A"

definition ncols :: "matrix \<Rightarrow> nat" where
  "ncols A = (case A of [] \<Rightarrow> 0 | r # _ \<Rightarrow> length r)"

definition wf_mat :: "nat \<Rightarrow> nat \<Rightarrow> matrix \<Rightarrow> bool" where
  "wf_mat n d A \<longleftrightarrow> length A = n \<and> list_all (\<lambda>r. length r = d) A"

definition mk_vec :: "nat \<Rightarrow> (nat \<Rightarrow> npfloat) \<Rightarrow> vec" where
  "mk_vec d f = map f [0..<d]"

definition mk_mat :: "nat \<Rightarrow> nat \<Rightarrow> (nat \<Rightarrow> nat \<Rightarrow> npfloat) \<Rightarrow> matrix" where
  "mk_mat n d f = map (\<lambda>s. mk_vec d (f s)) [0..<n]"

text \<open>\<^verbatim>\<open>A.T\<close> for \<open>A\<close> of shape \<open>(n, d)\<close>.\<close>

definition transpose_np :: "nat \<Rightarrow> nat \<Rightarrow> matrix \<Rightarrow> matrix" where
  "transpose_np n d A = mk_mat d n (\<lambda>j s. A ! s ! j)"

text \<open>\<^verbatim>\<open>np.dot(A, B)\<close> for \<open>A\<close> of shape \<open>(n, m)\<close> and \<open>B\<close> of shape \<open>(m, d)\<close>.\<close>

definition np_dot :: "nat \<Rightarrow> nat \<Rightarrow> nat \<Rightarrow> matrix \<Rightarrow> matrix \<Rightarrow> matrix" where
  "np_dot n m d A B = mk_mat n d (\<lambda>s j. \<Sum>t<m. A ! s ! t * B ! t ! j)"

text \<open>Elementwise \<^verbatim>\<open>A - B\<close> and \<^verbatim>\<open>A * B\<close> of arrays of the same shape \<open>(n, d)\<close>.\<close>

definition mat_sub :: "nat \<Rightarrow> nat \<Rightarrow> matrix \<Rightarrow> matrix \<Rightarrow> matrix" where
  "mat_sub n d A B = mk_mat n d (\<lambda>s j. A ! s ! j - B ! s ! j)"

definition mat_mul :: "nat \<Rightarrow> nat \<Rightarrow> matrix \<Rightarrow> matrix \<Rightarrow> matrix" where
  "mat_mul n d A B = mk_mat n d (\<lambda>s j. A ! s ! j * B ! s ! j)"

text \<open>
  \<^verbatim>\<open>A * c\<close> for \<open>A\<close> of shape \<open>(n, d)\<close> and a column \<open>c\<close> of shape \<open>(n, 1)\<close>:
  NumPy broadcasts the column over the features.
\<close>

definition mat_mul_col :: "nat \<Rightarrow> nat \<Rightarrow> matrix \<Rightarrow> matrix \<Rightarrow> matrix" where
  "mat_mul_col n d A c = mk_mat n d (\<lambda>s j. A ! s ! j * c ! s ! 0)"

text \<open>\<^verbatim>\<open>A - v\<close> and \<^verbatim>\<open>v + A\<close> for a vector \<open>v\<close> of shape \<open>(d,)\<close>, broadcast over the rows.\<close>

definition mat_sub_row :: "nat \<Rightarrow> nat \<Rightarrow> matrix \<Rightarrow> vec \<Rightarrow> matrix" where
  "mat_sub_row n d A v = mk_mat n d (\<lambda>s j. A ! s ! j - v ! j)"

definition row_add_mat :: "nat \<Rightarrow> nat \<Rightarrow> vec \<Rightarrow> matrix \<Rightarrow> matrix" where
  "row_add_mat n d v A = mk_mat n d (\<lambda>s j. v ! j + A ! s ! j)"

text \<open>\<^verbatim>\<open>A.sum(0)\<close>, \<^verbatim>\<open>A.mean(0)\<close> and \<^verbatim>\<open>A.var(0)\<close> for \<open>A\<close> of shape \<open>(n, d)\<close>.\<close>

definition sum0 :: "nat \<Rightarrow> nat \<Rightarrow> matrix \<Rightarrow> vec" where
  "sum0 n d A = mk_vec d (\<lambda>j. \<Sum>s<n. A ! s ! j)"

definition mean0 :: "nat \<Rightarrow> nat \<Rightarrow> matrix \<Rightarrow> vec" where
  "mean0 n d A = mk_vec d (\<lambda>j. sum0 n d A ! j / Fin (real n))"

definition var0 :: "nat \<Rightarrow> nat \<Rightarrow> matrix \<Rightarrow> vec" where
  "var0 n d A = mean0 n d (mk_mat n d (\<lambda>s j.
     (A ! s ! j - mean0 n d A ! j) * (A ! s ! j - mean0 n d A ! j)))"

definition vec_sum :: "vec \<Rightarrow> npfloat" where
  "vec_sum v = (\<Sum>j<length v. v ! j)"

text \<open>\<^verbatim>\<open>A.diagonal()\<close> of a square array of shape \<open>(k, k)\<close>.\<close>

definition diagonal :: "nat \<Rightarrow> matrix \<Rightarrow> vec" where
  "diagonal k A = mk_vec k (\<lambda>t. A ! t ! t)"

lemma length_mk_vec: "length (mk_vec d f) = d"
  by (simp add: mk_vec_def)

lemma nth_mk_vec: "j < d \<Longrightarrow> mk_vec d f ! j = f j"
  by (simp add: mk_vec_def)

lemma length_mk_mat: "length (mk_mat n d f) = n"
  by (simp add: mk_mat_def)

lemma nth_mk_mat: "s < n \<Longrightarrow> mk_mat n d f ! s = mk_vec d (f s)"
  by (simp add: mk_mat_def)

lemma nth_nth_mk_mat: "s < n \<Longrightarrow> j < d \<Longrightarrow> mk_mat n d f ! s ! j = f s j"
  by (simp add: nth_mk_mat nth_mk_vec)

lemma wf_mk_mat: "wf_mat n d (mk_mat n d f)"
  by (simp add: wf_mat_def mk_mat_def mk_vec_def list_all_iff)


section \<open>Errors and the helpers imported from \<^verbatim>\<open>utils\<close>\<close>

text \<open>
  A raised exception is a value: \<open>Inl e\<close>. \<open>AssertionError\<close> is a failed
  \<^verbatim>\<open>assert\<close>, \<open>AttributeError\<close> the read of an attribute that no fit has set,
  \<open>IndexError\<close> an index beyond the rows of an array, \<open>ValueError\<close> NumPy's
  refusal of operands whose shapes do not fit. The other three are the failures that
  the helpers are said to have.
\<close>

datatype error =
  AssertionError | AttributeError | IndexError | ValueError
  | DimensionError | RankDeficiencyError | SingularSystemError

text \<open>
  \<^verbatim>\<open>empca.py\<close> imports \<^verbatim>\<open>orthonormalize\<close>, \<^verbatim>\<open>random_orthonormal\<close> and
  \<^verbatim>\<open>solve_weighted\<close> from a module that is not part of the sources at hand. They are
  parameters of the model: every function that calls one of them takes the record
  \<open>u\<close> of the three. A helper returns a fresh array or raises.
\<close>

record utils =
  orthonormalize :: "matrix \<Rightarrow> error + matrix"
  random_orthonormal :: "nat \<Rightarrow> nat \<Rightarrow> nat option \<Rightarrow> error + matrix"
  solve_weighted :: "matrix \<Rightarrow> vec \<Rightarrow> vec \<Rightarrow> error + vec"

text \<open>A list comprehension whose elements may raise: the first failure is raised.\<close>

fun sequence_err :: "(error + 'a) list \<Rightarrow> error + 'a list" where
  "sequence_err [] = Inr []"
| "sequence_err (x # xs) =
     (case x of
        Inl e \<Rightarrow> Inl e
      | Inr v \<Rightarrow> (case sequence_err xs of Inl e \<Rightarrow> Inl e | Inr vs \<Rightarrow> Inr (v # vs)))"

text \<open>\<^verbatim>\<open>A[i]\<close>: row \<open>i\<close> of an array, or IndexError.\<close>

definition row_at :: "matrix \<Rightarrow> nat \<Rightarrow> error + vec" where
  "row_at A i = (if i < length A then Inr (A ! i) else Inl IndexError)"

section \<open>The estimator \<^verbatim>\<open>EMPCA\<close>\<close>

text \<open>
  The object's attributes: the three constructor arguments, and the four attributes
  that \<^verbatim>\<open>fit_transform\<close> sets (\<open>None\<close> while unset; \<open>mean_attr\<close> is the
  attribute \<^verbatim>\<open>mean_\<close>, and so on: a name cannot end with an underscore here). \<^verbatim>\<open>range(max_iter)\<close> is
  empty for a negative \<^verbatim>\<open>max_iter\<close>, so the loop runs \<open>nat max_iter\<close> times.
\<close>

record EMPCA =
  n_components :: nat
  max_iter :: int
  random_state :: "nat option"
  mean_attr :: "vec option"
  components_attr :: "matrix option"
  explained_variance_attr :: "vec option"
  explained_variance_ratio_attr :: "vec option"

definition EMPCA_init :: "nat \<Rightarrow> int \<Rightarrow> nat option \<Rightarrow> EMPCA" where
  "EMPCA_init k iters seed =
     \<lparr>n_components = k, max_iter = iters, random_state = seed, mean_attr = None,
      components_attr = None, explained_variance_attr = None, explained_variance_ratio_attr = None\<rparr>"

subsection \<open>E-step\<close>

text \<open>
  \<^verbatim>\<open>EMPCA._Estep(data, weights, eigvec)\<close>: without weights the product
  \<^verbatim>\<open>np.dot(data, eigvec.T)\<close>, which raises ValueError unless \<open>data\<close> has as many
  columns as \<open>eigvec\<close>; with weights one call of \<^verbatim>\<open>solve_weighted\<close> per sample, on
  \<^verbatim>\<open>eigvec.T\<close> and the rows \<^verbatim>\<open>data[i]\<close> and \<^verbatim>\<open>weights[i]\<close>. The feature count is read
  off \<open>eigvec\<close>, or off \<open>data\<close> when \<open>eigvec\<close> has no row.
\<close>

definition Estep :: "utils \<Rightarrow> matrix \<Rightarrow> matrix option \<Rightarrow> matrix \<Rightarrow> error + matrix" where
  "Estep u data weights eigvec =
     (let n = nrows data; k = nrows eigvec;
          d = (if eigvec = [] then ncols data else ncols eigvec) in
      case weights of
        None \<Rightarrow>
          if wf_mat n d data \<and> wf_mat k d eigvec
          then Inr (np_dot n d k data (transpose_np k d eigvec))
          else Inl ValueError
      | Some W \<Rightarrow>
          sequence_err (map (\<lambda>i.
            case row_at W i of
              Inl e \<Rightarrow> Inl e
            | Inr w \<Rightarrow> solve_weighted u (transpose_np k d eigvec) (data ! i) w) [0..<n]))"

subsection \<open>M-step\<close>

text \<open>
  The shapes that \<^verbatim>\<open>_Mstep\<close> is written for: \<open>data\<close> of shape \<open>(n, d)\<close>, \<open>eigvec\<close>
  of shape \<open>(k, d)\<close>, \<open>coeff\<close> of shape \<open>(n, k)\<close> and the weights, when given, of
  shape \<open>(n, d)\<close>. The feature count \<open>d\<close> is read off \<open>eigvec\<close>, which has a row
  whenever the loop body runs.
\<close>

definition conforming :: "matrix \<Rightarrow> matrix option \<Rightarrow> matrix \<Rightarrow> matrix \<Rightarrow> bool" where
  "conforming data weights eigvec coeff \<longleftrightarrow>
     (let n = nrows data; k = nrows eigvec; d = ncols eigvec in
      wf_mat n d data \<and> wf_mat k d eigvec \<and> wf_mat n k coeff
      \<and> (case weights of None \<Rightarrow> True | Some W \<Rightarrow> wf_mat n d W))"

text \<open>
  The value assigned to \<^verbatim>\<open>eigvec[i]\<close>:
  \<^verbatim>\<open>d = data - np.dot(coeff[:, :i], eigvec[:i])\<close>, \<^verbatim>\<open>c = coeff[:, i:i + 1]\<close>,
  \<^verbatim>\<open>np.dot(c.T, w2 * d) / np.dot(c.T, w2 * c)\<close>. Without weights \<^verbatim>\<open>w2\<close> is the
  scalar 1: the denominator has shape \<open>(1, 1)\<close> and is broadcast over the features.
  With weights \<^verbatim>\<open>w2 * c\<close> broadcasts the column \<open>c\<close>, and the denominator has shape
  \<open>(1, d)\<close>. For data without rows both sums are empty, and every entry is
  \<open>0 / 0\<close>.
\<close>

definition Mstep_row :: "matrix \<Rightarrow> matrix option \<Rightarrow> matrix \<Rightarrow> matrix \<Rightarrow> nat \<Rightarrow> vec" where
  "Mstep_row data weights eigvec coeff i =
     (let n = nrows data; dd = ncols eigvec;
          d = mat_sub n dd data (np_dot n i dd (map (take i) coeff) (take i eigvec));
          c = map (\<lambda>r. take 1 (drop i r)) coeff;
          cT = transpose_np n 1 c
      in case weights of
           None \<Rightarrow>
             (let num = np_dot 1 n dd cT (mk_mat n dd (\<lambda>s j. 1 * d ! s ! j));
                  den = np_dot 1 n 1 cT (mk_mat n 1 (\<lambda>s j. 1 * c ! s ! j))
              in mk_vec dd (\<lambda>j. num ! 0 ! j / den ! 0 ! 0))
         | Some W \<Rightarrow>
             (let w2 = mk_mat n dd (\<lambda>s j. W ! s ! j * W ! s ! j);
                  num = np_dot 1 n dd cT (mat_mul n dd w2 d);
                  den = np_dot 1 n dd cT (mat_mul_col n dd w2 c)
              in mk_vec dd (\<lambda>j. num ! 0 ! j / den ! 0 ! j)))"

text \<open>
  One pass of the loop body for row \<open>i\<close>: the assignment to \<^verbatim>\<open>eigvec[i]\<close>, then
  \<^verbatim>\<open>eigvec[:i + 1] = orthonormalize(eigvec[:i + 1])\<close>. Where the shapes do not conform,
  the products and elementwise operations of the body raise ValueError, unless NumPy
  can broadcast one operand over the other; likewise the assignment to the slice
  \<^verbatim>\<open>eigvec[:i + 1]\<close> raises ValueError when the helper's result has not the shape
  \<open>(i + 1, d)\<close> of the slice, unless it can be broadcast to it. The model raises
  ValueError in all these cases: it follows the code on conforming shapes, and what is
  proved below is about conforming shapes.
\<close>

definition Mstep_body ::
  "utils \<Rightarrow> matrix \<Rightarrow> matrix option \<Rightarrow> matrix \<Rightarrow> nat \<Rightarrow> matrix \<Rightarrow> error + matrix" where
  "Mstep_body u data weights coeff i eigvec =
     (if \<not> conforming data weights eigvec coeff then Inl ValueError
      else
        (let eigvec1 = eigvec[i := Mstep_row data weights eigvec coeff i] in
         case orthonormalize u (take (Suc i) eigvec1) of
           Inl e \<Rightarrow> Inl e
         | Inr Q \<Rightarrow>
             if wf_mat (Suc i) (ncols eigvec) Q then Inr (Q @ drop (Suc i) eigvec1)
             else Inl ValueError))"

fun Mstep_loop ::
  "utils \<Rightarrow> matrix \<Rightarrow> matrix option \<Rightarrow> matrix \<Rightarrow> nat list \<Rightarrow> matrix \<Rightarrow> error + matrix" where
  "Mstep_loop u data weights coeff [] eigvec = Inr eigvec"
| "Mstep_loop u data weights coeff (i # rest) eigvec =
     (case Mstep_body u data weights coeff i eigvec of
        Inl e \<Rightarrow> Inl e
      | Inr eigvec' \<Rightarrow> Mstep_loop u data weights coeff rest eigvec')"

text \<open>\<^verbatim>\<open>EMPCA._Mstep(data, weights, eigvec, coeff)\<close>: \<^verbatim>\<open>for i in range(eigvec.shape[0])\<close>.\<close>

definition Mstep :: "utils \<Rightarrow> matrix \<Rightarrow> matrix option \<Rightarrow> matrix \<Rightarrow> matrix \<Rightarrow> error + matrix" where
  "Mstep u data weights eigvec coeff =
     Mstep_loop u data weights coeff [0..<nrows eigvec] eigvec"

subsection \<open>Fitting\<close>

text \<open>
  The mean with weights: \<^verbatim>\<open>XW = X * weights\<close>, \<^verbatim>\<open>XW[weights == 0] = 0\<close>,
  \<^verbatim>\<open>XW.sum(0) / weights.sum(0)\<close>.
\<close>

definition weighted_mean :: "nat \<Rightarrow> nat \<Rightarrow> matrix \<Rightarrow> matrix \<Rightarrow> vec" where
  "weighted_mean n d X W =
     (let XW = mat_mul n d X W;
          XW0 = mk_mat n d (\<lambda>s j. if W ! s ! j = 0 then 0 else XW ! s ! j)
      in mk_vec d (\<lambda>j. sum0 n d XW0 ! j / sum0 n d W ! j))"

definition fit_mean :: "matrix \<Rightarrow> matrix option \<Rightarrow> vec" where
  "fit_mean X weights =
     (case weights of
        None \<Rightarrow> mean0 (nrows X) (ncols X) X
      | Some W \<Rightarrow> weighted_mean (nrows X) (ncols X) X W)"

text \<open>
  The loop \<^verbatim>\<open>for k in range(self.max_iter)\<close> of \<^verbatim>\<open>fit_transform\<close>, by the number of
  passes that remain.
\<close>

fun em_loop :: "utils \<Rightarrow> matrix \<Rightarrow> matrix option \<Rightarrow> nat \<Rightarrow> matrix \<Rightarrow> error + matrix" where
  "em_loop u X_c weights 0 eigvec = Inr eigvec"
| "em_loop u X_c weights (Suc m) eigvec =
     (case Estep u X_c weights eigvec of
        Inl e \<Rightarrow> Inl e
      | Inr coeff \<Rightarrow>
          (case Mstep u X_c weights eigvec coeff of
             Inl e \<Rightarrow> Inl e
           | Inr eigvec' \<Rightarrow> em_loop u X_c weights m eigvec'))"

text \<open>
  \<^verbatim>\<open>np.dot(coeff.T, coeff).diagonal() / X.shape[0]\<close> for \<open>coeff\<close> of shape \<open>(n, k)\<close>,
  and \<^verbatim>\<open>self.explained_variance_ / X_c.var(0).sum()\<close>.
\<close>

definition explained_variance :: "nat \<Rightarrow> nat \<Rightarrow> matrix \<Rightarrow> vec" where
  "explained_variance n k coeff =
     (let g = diagonal k (np_dot k n k (transpose_np n k coeff) coeff)
      in mk_vec k (\<lambda>t. g ! t / Fin (real n)))"

definition explained_variance_ratio :: "nat \<Rightarrow> nat \<Rightarrow> matrix \<Rightarrow> vec \<Rightarrow> vec" where
  "explained_variance_ratio n d X_c ev =
     mk_vec (length ev) (\<lambda>t. ev ! t / vec_sum (var0 n d X_c))"

text \<open>
  The inputs that \<^verbatim>\<open>fit_transform\<close> is written for: \<open>X\<close> of shape \<open>(n, d)\<close> and the
  weights, when given, of the same shape.
\<close>

definition input_ok :: "matrix \<Rightarrow> matrix option \<Rightarrow> bool" where
  "input_ok X weights \<longleftrightarrow>
     wf_mat (nrows X) (ncols X) X
     \<and> (case weights of None \<Rightarrow> True | Some W \<Rightarrow> wf_mat (nrows X) (ncols X) W)"

text \<open>
  \<^verbatim>\<open>EMPCA.fit_transform(X, weights)\<close> returns the coefficients or raises, and leaves
  the object as it is at that moment: the second component is the object afterwards.
  The method checks nothing itself. For weights of another shape than \<open>X\<close>, NumPy
  raises ValueError at \<^verbatim>\<open>X * weights\<close> or IndexError at \<^verbatim>\<open>XW[weights == 0] = 0\<close>,
  before any attribute is set, unless it can broadcast \<open>X\<close> over the weights (an
  \<open>X\<close> with a single row, say), in which case the failure comes later or not at all.
  The model raises ValueError in all these cases: it follows the code on weights of
  the shape of \<open>X\<close>.
\<close>

definition fit_transform ::
  "utils \<Rightarrow> EMPCA \<Rightarrow> matrix \<Rightarrow> matrix option \<Rightarrow> (error + matrix) \<times> EMPCA" where
  "fit_transform u self X weights =
     (if \<not> input_ok X weights then (Inl ValueError, self)
      else
        (let n = nrows X; d = ncols X;
             self1 = self\<lparr>mean_attr := Some (fit_mean X weights)\<rparr>;
             X_c = mat_sub_row n d X (fit_mean X weights)
         in case random_orthonormal u (n_components self) d (random_state self) of
              Inl e \<Rightarrow> (Inl e, self1)
            | Inr eigvec0 \<Rightarrow>
                (case em_loop u X_c weights (nat (max_iter self)) eigvec0 of
                   Inl e \<Rightarrow> (Inl e, self1)
                 | Inr eigvec \<Rightarrow>
                     (case Estep u X_c weights eigvec of
                        Inl e \<Rightarrow> (Inl e, self1)
                      | Inr coeff \<Rightarrow>
                          (Inr coeff,
                           self1\<lparr>components_attr := Some eigvec,
                                 explained_variance_attr :=
                                   Some (explained_variance n (nrows eigvec) coeff),
                                 explained_variance_ratio_attr :=
                                   Some (explained_variance_ratio n d X_c
                                           (explained_variance n (nrows eigvec) coeff))\<rparr>)))))"

text \<open>\<^verbatim>\<open>EMPCA.fit(X, weights)\<close> returns the object.\<close>

definition fit :: "utils \<Rightarrow> EMPCA \<Rightarrow> matrix \<Rightarrow> matrix option \<Rightarrow> (error + unit) \<times> EMPCA" where
  "fit u self X weights =
     (case fit_transform u self X weights of
        (Inl e, self') \<Rightarrow> (Inl e, self')
      | (Inr coeff, self') \<Rightarrow> (Inr (), self'))"

subsection \<open>Transforming\<close>

text \<open>
  \<^verbatim>\<open>transform\<close>, \<^verbatim>\<open>inverse_transform\<close> and \<^verbatim>\<open>reconstruct\<close> read \<^verbatim>\<open>mean_\<close> and
  \<^verbatim>\<open>components_\<close> and set nothing. \<^verbatim>\<open>X - self.mean_\<close> needs an \<open>X\<close> with as many
  columns as the mean has entries, and \<^verbatim>\<open>self.mean_ + np.dot(X, self.components_)\<close>
  needs coefficients of shape \<open>(n, k)\<close> for components of shape \<open>(k, d)\<close> and a mean
  of \<open>d\<close> entries: otherwise ValueError (NumPy broadcasts a single column against
  the mean; the model does not).
\<close>

definition transform :: "utils \<Rightarrow> EMPCA \<Rightarrow> matrix \<Rightarrow> matrix option \<Rightarrow> error + matrix" where
  "transform u self X weights =
     (case mean_attr self of
        None \<Rightarrow> Inl AttributeError
      | Some m \<Rightarrow>
          (case components_attr self of
             None \<Rightarrow> Inl AttributeError
           | Some E \<Rightarrow>
               if wf_mat (nrows X) (length m) X
               then Estep u (mat_sub_row (nrows X) (length m) X m) weights E
               else Inl ValueError))"

definition inverse_transform :: "EMPCA \<Rightarrow> matrix \<Rightarrow> error + matrix" where
  "inverse_transform self Y =
     (case mean_attr self of
        None \<Rightarrow> Inl AttributeError
      | Some m \<Rightarrow>
          (case components_attr self of
             None \<Rightarrow> Inl AttributeError
           | Some E \<Rightarrow>
               if wf_mat (nrows Y) (nrows E) Y \<and> wf_mat (nrows E) (length m) E
               then Inr (row_add_mat (nrows Y) (length m) m
                           (np_dot (nrows Y) (nrows E) (length m) Y E))
               else Inl ValueError))"

definition reconstruct :: "utils \<Rightarrow> EMPCA \<Rightarrow> matrix \<Rightarrow> matrix option \<Rightarrow> error + matrix" where
  "reconstruct u self X weights =
     (case transform u self X weights of
        Inl e \<Rightarrow> Inl e
      | Inr Y \<Rightarrow> inverse_transform self Y)"

definition fit_reconstruct ::
  "utils \<Rightarrow> EMPCA \<Rightarrow> matrix \<Rightarrow> matrix option \<Rightarrow> (error + matrix) \<times> EMPCA" where
  "fit_reconstruct u self X weights =
     (case fit_transform u self X weights of
        (Inl e, self') \<Rightarrow> (Inl e, self')
      | (Inr Y, self') \<Rightarrow> (inverse_transform self' Y, self'))"

section \<open>The module-level function \<^verbatim>\<open>empca\<close>\<close>

text \<open>
  \<^verbatim>\<open>_Estep(eigvec, data, weights, coeff)\<close> assigns \<^verbatim>\<open>coeff[i]\<close> for every sample, in
  place.
\<close>

fun Estep_fn_loop ::
  "utils \<Rightarrow> matrix \<Rightarrow> matrix \<Rightarrow> matrix \<Rightarrow> nat list \<Rightarrow> matrix \<Rightarrow> error + matrix" where
  "Estep_fn_loop u eigvecT data weights [] coeff = Inr coeff"
| "Estep_fn_loop u eigvecT data weights (i # rest) coeff =
     (case row_at weights i of
        Inl e \<Rightarrow> Inl e
      | Inr w \<Rightarrow>
          (case solve_weighted u eigvecT (data ! i) w of
             Inl e \<Rightarrow> Inl e
           | Inr v \<Rightarrow>
               if i < length coeff
               then Estep_fn_loop u eigvecT data weights rest (coeff[i := v])
               else Inl IndexError))"

definition Estep_fn :: "utils \<Rightarrow> matrix \<Rightarrow> matrix \<Rightarrow> matrix \<Rightarrow> matrix \<Rightarrow> error + matrix" where
  "Estep_fn u eigvec data weights coeff =
     Estep_fn_loop u
       (transpose_np (nrows eigvec) (if eigvec = [] then ncols data else ncols eigvec) eigvec)
       data weights [0..<nrows data] coeff"

text \<open>
  \<^verbatim>\<open>_Mstep(eigvec, data, weights, coeff)\<close> has the loop of \<^verbatim>\<open>EMPCA._Mstep\<close>, with
  \<^verbatim>\<open>w2 = weights ** 2\<close> always.
\<close>

definition Mstep_fn :: "utils \<Rightarrow> matrix \<Rightarrow> matrix \<Rightarrow> matrix \<Rightarrow> matrix \<Rightarrow> error + matrix" where
  "Mstep_fn u eigvec data weights coeff =
     Mstep_loop u data (Some weights) coeff [0..<nrows eigvec] eigvec"

fun empca_loop ::
  "utils \<Rightarrow> matrix \<Rightarrow> matrix \<Rightarrow> nat \<Rightarrow> matrix \<times> matrix \<Rightarrow> error + matrix \<times> matrix" where
  "empca_loop u data weights 0 (eigvec, coeff) = Inr (eigvec, coeff)"
| "empca_loop u data weights (Suc m) (eigvec, coeff) =
     (case Estep_fn u eigvec data weights coeff of
        Inl e \<Rightarrow> Inl e
      | Inr coeff' \<Rightarrow>
          (case Mstep_fn u eigvec data weights coeff' of
             Inl e \<Rightarrow> Inl e
           | Inr eigvec' \<Rightarrow> empca_loop u data weights m (eigvec', coeff')))"

definition empca ::
  "utils \<Rightarrow> matrix \<Rightarrow> matrix \<Rightarrow> nat \<Rightarrow> int \<Rightarrow> nat option \<Rightarrow> error + matrix \<times> matrix" where
  "empca u data weights nvec niter seed =
     (if (nrows data, ncols data) \<noteq> (nrows weights, ncols weights) then Inl AssertionError
      else if \<not> nvec \<le> ncols data then Inl AssertionError
      else
        (case random_orthonormal u nvec (ncols data) seed of
           Inl e \<Rightarrow> Inl e
         | Inr eigvec0 \<Rightarrow>
             (case empca_loop u data weights (nat niter)
                     (eigvec0, mk_mat (nrows data) nvec (\<lambda>s t. 0)) of
                Inl e \<Rightarrow> Inl e
              | Inr (eigvec, coeff) \<Rightarrow>
                  (case Estep_fn u eigvec data weights coeff of
                     Inl e \<Rightarrow> Inl e
                   | Inr coeff' \<Rightarrow> Inr (eigvec, coeff')))))"


section \<open>Reference helpers\<close>

text \<open>
  Modelled from the spec: the square root of the norm in the Orthonormalizer (section
  4.2), \<^verbatim>\<open>np.sqrt\<close>, which is \<open>nan\<close> on a negative number.
\<close>

fun np_sqrt :: "npfloat \<Rightarrow> npfloat" where
  "np_sqrt (Fin a) = (if a < 0 then NaN else Fin (sqrt a))"
| "np_sqrt NaN = NaN"

definition inner :: "vec \<Rightarrow> vec \<Rightarrow> npfloat" where
  "inner x y = (\<Sum>j<length x. x ! j * y ! j)"

text \<open>
  Modelled from the spec: \<^verbatim>\<open>orthonormalize\<close> is not in the sources. Section 4.2: the
  rows are processed in order; row \<open>i\<close> is made orthogonal to the output rows
  \<open>0..i-1\<close> and then normalised to unit length. Of the two policies that the spec
  allows for a degenerate residual, the model rejects: it fails with
  RankDeficiencyError when the norm is zero or not a number (section 7: no NaN is
  propagated silently).
  \<open>gs_residual qs v\<close> removes from \<open>v\<close> its projections onto the rows \<open>qs\<close>.
\<close>

definition gs_residual :: "matrix \<Rightarrow> vec \<Rightarrow> vec" where
  "gs_residual qs v =
     mk_vec (length v) (\<lambda>j. v ! j - (\<Sum>t<length qs. inner v (qs ! t) * qs ! t ! j))"

fun gram_schmidt :: "matrix \<Rightarrow> matrix \<Rightarrow> error + matrix" where
  "gram_schmidt qs [] = Inr qs"
| "gram_schmidt qs (v # vs) =
     (let r = gs_residual qs v; nrm = np_sqrt (inner r r) in
      if nrm = 0 \<or> nrm = NaN then Inl RankDeficiencyError
      else gram_schmidt (qs @ [map (\<lambda>x. x / nrm) r]) vs)"

definition spec_orthonormalize :: "matrix \<Rightarrow> error + matrix" where
  "spec_orthonormalize A = gram_schmidt [] A"

text \<open>
  Modelled from the spec: \<^verbatim>\<open>random_orthonormal\<close> is not in the sources. Section 4.1:
  the precondition \<open>k \<le> d\<close>, else DimensionError; then a random \<open>k \<times> d\<close> matrix,
  orthonormalised. The generator \<open>draw\<close> is a parameter.
\<close>

definition spec_random_orthonormal ::
  "(nat option \<Rightarrow> nat \<Rightarrow> nat \<Rightarrow> matrix) \<Rightarrow> nat \<Rightarrow> nat \<Rightarrow> nat option \<Rightarrow> error + matrix" where
  "spec_random_orthonormal draw k d seed =
     (if \<not> k \<le> d then Inl DimensionError else spec_orthonormalize (draw seed k d))"

text \<open>
  Modelled from the spec: the solution of a \<open>k \<times> k\<close> linear system (section 4.3), in
  exact arithmetic by Cramer's rule; a system whose determinant is zero or not a number
  fails with SingularSystemError.
\<close>

primrec det :: "nat \<Rightarrow> matrix \<Rightarrow> npfloat" where
  "det 0 M = 1"
| "det (Suc k) M =
     (\<Sum>j<Suc k. (if even j then 1 else Fin (- 1)) * (M ! 0 ! j
        * det k (map (\<lambda>r. take j r @ drop (Suc j) r) (tl M))))"

definition lin_solve :: "matrix \<Rightarrow> vec \<Rightarrow> error + vec" where
  "lin_solve G p =
     (let k = length G in
      if det k G = 0 \<or> det k G = NaN then Inl SingularSystemError
      else Inr (mk_vec k (\<lambda>i.
             det k (mk_mat k k (\<lambda>a c. if c = i then p ! a else G ! a ! c)) / det k G)))"

text \<open>
  Modelled from the spec: \<^verbatim>\<open>solve_weighted\<close> is not in the sources. Section 4.3: the
  weighted normal equations, with Gram matrix \<open>B diag(w\<^sup>2) B\<^sup>T\<close> and projection
  \<open>B diag(w\<^sup>2) x\<close>. The E-step passes \<^verbatim>\<open>eigvec.T\<close>, of shape \<open>(d, k)\<close>: \<open>A = B\<^sup>T\<close>.
\<close>

definition spec_solve_weighted :: "matrix \<Rightarrow> vec \<Rightarrow> vec \<Rightarrow> error + vec" where
  "spec_solve_weighted A b w =
     (let d = nrows A; k = ncols A in
      lin_solve
        (mk_mat k k (\<lambda>a c. \<Sum>j<d. A ! j ! a * (w ! j * w ! j) * A ! j ! c))
        (mk_vec k (\<lambda>a. \<Sum>j<d. A ! j ! a * (w ! j * w ! j) * b ! j)))"

definition spec_utils :: "(nat option \<Rightarrow> nat \<Rightarrow> nat \<Rightarrow> matrix) \<Rightarrow> utils" where
  "spec_utils draw =
     \<lparr>orthonormalize = spec_orthonormalize,
      random_orthonormal = spec_random_orthonormal draw,
      solve_weighted = spec_solve_weighted\<rparr>"

text \<open>A generator for examples: it draws the first \<open>k\<close> unit vectors, whatever the seed.\<close>

definition draw_units :: "nat option \<Rightarrow> nat \<Rightarrow> nat \<Rightarrow> matrix" where
  "draw_units seed k d = mk_mat k d (\<lambda>t j. if t = j then 1 else 0)"

section \<open>Shapes and entries\<close>

lemma wf_mat_nth: "wf_mat n d A \<Longrightarrow> s < n \<Longrightarrow> length (A ! s) = d"
  by (auto simp: wf_mat_def list_all_length)

lemma wf_mat_length: "wf_mat n d A \<Longrightarrow> length A = n"
  by (simp add: wf_mat_def)

section \<open>The M-step, row by row\<close>

text \<open>
  The spec's description of the update of row \<open>i\<close>, entry by entry. \<open>w2_entry\<close> is the
  squared weight, or 1 without weights; \<open>deflated\<close> is the residual of the data after
  the reconstruction from the rows \<open>0..i-1\<close>; \<open>wls_row\<close> is the weighted
  least-squares direction, with one quotient per feature.
\<close>

definition w2_entry :: "matrix option \<Rightarrow> nat \<Rightarrow> nat \<Rightarrow> npfloat" where
  "w2_entry weights s j = (case weights of None \<Rightarrow> 1 | Some W \<Rightarrow> W ! s ! j * W ! s ! j)"

definition deflated :: "matrix \<Rightarrow> matrix \<Rightarrow> matrix \<Rightarrow> nat \<Rightarrow> nat \<Rightarrow> nat \<Rightarrow> npfloat" where
  "deflated data coeff eigvec i s j = data ! s ! j - (\<Sum>t<i. coeff ! s ! t * eigvec ! t ! j)"

definition wls_row ::
  "nat \<Rightarrow> nat \<Rightarrow> matrix \<Rightarrow> matrix option \<Rightarrow> matrix \<Rightarrow> matrix \<Rightarrow> nat \<Rightarrow> vec" where
  "wls_row n d data weights coeff eigvec i =
     mk_vec d (\<lambda>j.
       (\<Sum>s<n. coeff ! s ! i * (w2_entry weights s j * deflated data coeff eigvec i s j))
       / (\<Sum>s<n. coeff ! s ! i * (w2_entry weights s j * coeff ! s ! i)))"

lemma ncols_wf: "wf_mat k d A \<Longrightarrow> 0 < k \<Longrightarrow> ncols A = d"
  by (cases A) (simp_all add: wf_mat_def ncols_def)

lemma coeff_col_nth:
  assumes "wf_mat n k coeff" and "i < k" and "s < n"
  shows "map (\<lambda>r. take (Suc 0) (drop i r)) coeff ! s ! 0 = coeff ! s ! i"
  using assms by (simp add: wf_mat_nth wf_mat_length)

lemma coeff_prefix_nth:
  assumes "wf_mat n k coeff" and "s < n" and "t < i"
  shows "map (take i) coeff ! s ! t = coeff ! s ! t"
  using assms by (simp add: wf_mat_length)

lemma Mstep_row_eq:
  assumes "nrows data = n" and "ncols eigvec = d" and "wf_mat n k coeff" and "i < k"
  shows "Mstep_row data weights eigvec coeff i = wls_row n d data weights coeff eigvec i"
proof (cases weights)
  case None
  show ?thesis
    unfolding Mstep_row_def wls_row_def Let_def assms(1,2) None option.case
    by (rule nth_equalityI)
      (simp_all add: length_mk_vec nth_mk_vec np_dot_def mat_sub_def transpose_np_def
        nth_nth_mk_mat w2_entry_def deflated_def coeff_col_nth[OF assms(3,4)]
        coeff_prefix_nth[OF assms(3)] cong: sum.cong_simp)
next
  case (Some W)
  show ?thesis
    unfolding Mstep_row_def wls_row_def Let_def assms(1,2) Some option.case
    by (rule nth_equalityI)
      (simp_all add: length_mk_vec nth_mk_vec np_dot_def mat_sub_def mat_mul_def
        mat_mul_col_def transpose_np_def nth_nth_mk_mat w2_entry_def deflated_def
        coeff_col_nth[OF assms(3,4)] coeff_prefix_nth[OF assms(3)] cong: sum.cong_simp)
qed

lemma conformingI:
  assumes "wf_mat n d data" and "wf_mat k d eigvec" and "0 < k" and "wf_mat n k coeff"
    and "case weights of None \<Rightarrow> True | Some W \<Rightarrow> wf_mat n d W"
  shows "conforming data weights eigvec coeff"
  using assms ncols_wf[OF assms(2,3)]
  by (simp add: conforming_def Let_def nrows_def wf_mat_length split: option.splits)

lemma wf_mat_update:
  assumes "wf_mat k d A" and "length r = d"
  shows "wf_mat k d (A[i := r])"
  using assms unfolding wf_mat_def list_all_iff
  by (auto dest!: subsetD[OF set_update_subset_insert])

lemma wf_mat_append_drop:
  assumes "wf_mat (Suc i) d Q" and "wf_mat k d A" and "i < k"
  shows "wf_mat k d (Q @ drop (Suc i) A)"
  using assms unfolding wf_mat_def list_all_iff
  by (auto dest: in_set_dropD)

lemma length_wls_row: "length (wls_row n d data weights coeff eigvec i) = d"
  by (simp add: wls_row_def length_mk_vec)

lemma Mstep_body_eq:
  assumes "wf_mat n d data" and "wf_mat k d eigvec" and "wf_mat n k coeff"
    and "case weights of None \<Rightarrow> True | Some W \<Rightarrow> wf_mat n d W" and "i < k"
  shows "Mstep_body u data weights coeff i eigvec =
     (case orthonormalize u (take (Suc i) (eigvec[i := wls_row n d data weights coeff eigvec i])) of
        Inl e \<Rightarrow> Inl e
      | Inr Q \<Rightarrow>
          if wf_mat (Suc i) d Q
          then Inr (Q @ drop (Suc i) (eigvec[i := wls_row n d data weights coeff eigvec i]))
          else Inl ValueError)"
proof -
  have k: "0 < k"
    using assms(5) by simp
  have conf: "conforming data weights eigvec coeff"
    by (rule conformingI[OF assms(1,2) k assms(3,4)])
  have d: "ncols eigvec = d"
    by (rule ncols_wf[OF assms(2) k])
  have n: "nrows data = n"
    using assms(1) by (simp add: nrows_def wf_mat_length)
  show ?thesis
    unfolding Mstep_body_def Let_def Mstep_row_eq[OF n d assms(3,5)] d
    using conf by simp
qed

lemma Mstep_body_wf:
  assumes "wf_mat n d data" and "wf_mat k d eigvec" and "wf_mat n k coeff"
    and "case weights of None \<Rightarrow> True | Some W \<Rightarrow> wf_mat n d W" and "i < k"
    and "Mstep_body u data weights coeff i eigvec = Inr E"
  shows "wf_mat k d E"
proof -
  let ?E1 = "eigvec[i := wls_row n d data weights coeff eigvec i]"
  have E1: "wf_mat k d ?E1"
    by (rule wf_mat_update[OF assms(2) length_wls_row])
  from assms(6) obtain Q where Q: "wf_mat (Suc i) d Q" and E: "E = Q @ drop (Suc i) ?E1"
    unfolding Mstep_body_eq[OF assms(1-5)]
    by (auto split: sum.splits if_splits)
  show ?thesis
    unfolding E by (rule wf_mat_append_drop[OF Q E1 assms(5)])
qed

lemma Mstep_loop_wf:
  assumes "wf_mat n d data" and "wf_mat n k coeff"
    and "case weights of None \<Rightarrow> True | Some W \<Rightarrow> wf_mat n d W"
  shows "wf_mat k d eigvec \<Longrightarrow> list_all (\<lambda>x. x < k) xs \<Longrightarrow>
     Mstep_loop u data weights coeff xs eigvec = Inr E \<Longrightarrow> wf_mat k d E"
proof (induction xs arbitrary: eigvec)
  case Nil
  then show ?case by simp
next
  case (Cons i xs)
  from Cons.prems(3) obtain E' where
    b: "Mstep_body u data weights coeff i eigvec = Inr E'" and
    l: "Mstep_loop u data weights coeff xs E' = Inr E"
    by (auto split: sum.splits)
  have "i < k"
    using Cons.prems(2) by simp
  then have "wf_mat k d E'"
    using Mstep_body_wf[OF assms(1) Cons.prems(1) assms(2,3) _ b] by simp
  then show ?case
    using Cons.IH[OF _ _ l] Cons.prems(2) by simp
qed

lemma Mstep_loop_append:
  "Mstep_loop u data weights coeff (xs @ ys) eigvec =
     (case Mstep_loop u data weights coeff xs eigvec of
        Inl e \<Rightarrow> Inl e
      | Inr E \<Rightarrow> Mstep_loop u data weights coeff ys E)"
  by (induction xs arbitrary: eigvec) (auto split: sum.splits)



text \<open>The definitions that a concrete evaluation unfolds.\<close>

lemmas eval_defs = spec_utils_def Mstep_body_def Mstep_row_def conforming_def Let_def
  nrows_def ncols_def wf_mat_def np_dot_def mat_sub_def mat_mul_def mat_mul_col_def
  transpose_np_def mk_mat_def mk_vec_def spec_orthonormalize_def gs_residual_def inner_def
  zero_npfloat_def one_npfloat_def


section \<open>The mean\<close>





lemma input_okI:
  assumes "0 < n" and "wf_mat n d X"
    and "case weights of None \<Rightarrow> True | Some W \<Rightarrow> wf_mat n d W"
  shows "input_ok X weights" and "nrows X = n" and "ncols X = d"
proof -
  show n: "nrows X = n"
    using assms(2) by (simp add: nrows_def wf_mat_length)
  show d: "ncols X = d"
    using assms(1,2) by (rule ncols_wf[rotated])
  show "input_ok X weights"
    using assms(2,3) by (simp add: input_ok_def n d split: option.splits)
qed





section \<open>Explained variance\<close>

lemma fit_transform_Inr:
  assumes "fit_transform u self X weights = (Inr coeff, self')"
  shows "\<exists>E. components_attr self' = Some E
     \<and> Estep u (mat_sub_row (nrows X) (ncols X) X (fit_mean X weights)) weights E = Inr coeff
     \<and> explained_variance_attr self' = Some (explained_variance (nrows X) (nrows E) coeff)
     \<and> explained_variance_ratio_attr self' =
         Some (explained_variance_ratio (nrows X) (ncols X)
                 (mat_sub_row (nrows X) (ncols X) X (fit_mean X weights))
                 (explained_variance (nrows X) (nrows E) coeff))"
  using assms
  by (auto simp: fit_transform_def Let_def split: if_splits sum.splits)

text \<open>
  The spec's words, entry by entry: the data centred by the mean, and the variance of
  feature \<open>j\<close> of the centred data over the \<open>n\<close> samples.
\<close>

definition centred :: "matrix \<Rightarrow> vec \<Rightarrow> nat \<Rightarrow> nat \<Rightarrow> npfloat" where
  "centred X m s j = X ! s ! j - m ! j"

definition feature_variance :: "nat \<Rightarrow> matrix \<Rightarrow> vec \<Rightarrow> nat \<Rightarrow> npfloat" where
  "feature_variance n X m j =
     (\<Sum>s<n. (centred X m s j - (\<Sum>r<n. centred X m r j) / Fin (real n))
            * (centred X m s j - (\<Sum>r<n. centred X m r j) / Fin (real n)))
     / Fin (real n)"

lemma explained_variance_eq:
  "explained_variance n k coeff =
     mk_vec k (\<lambda>t. (\<Sum>s<n. coeff ! s ! t * coeff ! s ! t) / Fin (real n))"
  unfolding explained_variance_def Let_def
  by (rule nth_equalityI)
    (simp_all add: length_mk_vec nth_mk_vec diagonal_def np_dot_def transpose_np_def
      nth_nth_mk_mat cong: sum.cong_simp)

lemma var0_nth:
  assumes "j < d"
  shows "var0 n d (mat_sub_row n d X m) ! j = feature_variance n X m j"
  using assms
  by (simp add: var0_def mean0_def sum0_def nth_mk_vec nth_nth_mk_mat mat_sub_row_def
      feature_variance_def centred_def cong: sum.cong_simp)

lemma length_var0: "length (var0 n d A) = d"
  by (simp add: var0_def mean0_def length_mk_vec)

lemma total_variance_eq:
  "vec_sum (var0 n d (mat_sub_row n d X m)) = (\<Sum>j<d. feature_variance n X m j)"
  by (simp add: vec_sum_def length_var0 var0_nth cong: sum.cong_simp)

text \<open>
  C7. When \<^verbatim>\<open>fit_transform\<close> returns the coefficients \<open>coeff\<close>, of shape \<open>(n, k)\<close> for
  the \<open>k\<close> components it has stored, \<^verbatim>\<open>explained_variance_\<close> is the vector of the
  sums of squares of the columns of \<open>coeff\<close> (the diagonal of \<open>coeff\<^sup>T coeff\<close>)
  divided by the number \<open>n\<close> of rows of \<open>X\<close>, and \<^verbatim>\<open>explained_variance_ratio_\<close> is that
  vector divided by the sum over the features of the variance of the centred data.
\<close>

theorem explained_variance_fit:
  assumes "0 < n" and "wf_mat n d X"
    and "case weights of None \<Rightarrow> True | Some W \<Rightarrow> wf_mat n d W"
    and "fit_transform u self X weights = (Inr coeff, self')"
    and "components_attr self' = Some E" and "nrows E = k" and "wf_mat n k coeff"
  shows "explained_variance_attr self' =
           Some (mk_vec k (\<lambda>t. (\<Sum>s<n. coeff ! s ! t * coeff ! s ! t) / Fin (real n)))
       \<and> explained_variance_ratio_attr self' =
           Some (mk_vec k (\<lambda>t. (\<Sum>s<n. coeff ! s ! t * coeff ! s ! t) / Fin (real n)
                   / (\<Sum>j<d. feature_variance n X (fit_mean X weights) j)))"
proof -
  have n: "nrows X = n" and d: "ncols X = d"
    using input_okI[OF assms(1,2,3)] by simp_all
  from fit_transform_Inr[OF assms(4)] assms(5,6)
  have ev: "explained_variance_attr self' = Some (explained_variance n k coeff)"
    and evr: "explained_variance_ratio_attr self' =
      Some (explained_variance_ratio n d (mat_sub_row n d X (fit_mean X weights))
              (explained_variance n k coeff))"
    unfolding n d by auto
  have r: "explained_variance_ratio n d (mat_sub_row n d X (fit_mean X weights))
      (mk_vec k (\<lambda>t. (\<Sum>s<n. coeff ! s ! t * coeff ! s ! t) / Fin (real n)))
    = mk_vec k (\<lambda>t. (\<Sum>s<n. coeff ! s ! t * coeff ! s ! t) / Fin (real n)
                   / (\<Sum>j<d. feature_variance n X (fit_mean X weights) j))"
    unfolding explained_variance_ratio_def total_variance_eq length_mk_vec
    by (rule nth_equalityI) (simp_all add: length_mk_vec nth_mk_vec)
  show ?thesis
    using ev evr unfolding explained_variance_eq r by simp
qed

lemmas fit_eval_defs = fit_transform_def input_ok_def fit_mean_def mean0_def sum0_def
  mat_sub_row_def spec_random_orthonormal_def draw_units_def Estep_def Mstep_def
  explained_variance_def explained_variance_ratio_def var0_def vec_sum_def diagonal_def
  EMPCA_init_def

lemma fit_example:
  "fit_transform (spec_utils draw_units) (EMPCA_init 1 1 None)
     [[Fin 3, Fin 1], [Fin (- 1), Fin 1], [Fin 1, Fin 2], [Fin 1, Fin 0]] None
   = (Inr [[Fin 2], [Fin (- 2)], [Fin 0], [Fin 0]],
      \<lparr>n_components = 1, max_iter = 1, random_state = None, mean_attr = Some [Fin 1, Fin 1],
       components_attr = Some [[Fin 1, Fin 0]], explained_variance_attr = Some [Fin 2],
       explained_variance_ratio_attr = Some [Fin (4 / 5)]\<rparr>)"
  by (simp add: fit_eval_defs eval_defs)

theorem explained_variance_fit_witness:
  "explained_variance_attr (snd (fit_transform (spec_utils draw_units) (EMPCA_init 1 1 None)
       [[Fin 3, Fin 1], [Fin (- 1), Fin 1], [Fin 1, Fin 2], [Fin 1, Fin 0]] None))
     = Some [Fin 2]
   \<and> explained_variance_ratio_attr (snd (fit_transform (spec_utils draw_units)
       (EMPCA_init 1 1 None)
       [[Fin 3, Fin 1], [Fin (- 1), Fin 1], [Fin 1, Fin 2], [Fin 1, Fin 0]] None))
     = Some [Fin (4 / 5)]"
proof -
  let ?X = "[[Fin 3, Fin 1], [Fin (- 1), Fin 1], [Fin 1, Fin 2], [Fin 1, Fin 0]]"
  let ?C = "[[Fin 2], [Fin (- 2)], [Fin 0], [Fin 0]]"
  let ?F = "fit_transform (spec_utils draw_units) (EMPCA_init 1 1 None) ?X None"
  have h1: "(0::nat) < 4"
    by simp
  have h2: "wf_mat 4 2 ?X" and h7: "wf_mat 4 1 ?C"
    by (simp_all add: wf_mat_def)
  have h3: "case None of None \<Rightarrow> True | Some W \<Rightarrow> wf_mat 4 2 W"
    by simp
  have h4: "?F = (Inr ?C, snd ?F)"
    unfolding fit_example by simp
  have h5: "components_attr (snd ?F) = Some [[Fin 1, Fin 0]]"
    unfolding fit_example by simp
  have h6: "nrows [[Fin 1, Fin 0]] = 1"
    by (simp add: nrows_def)
  have m: "fit_mean ?X None = [Fin 1, Fin 1]"
    by code_simp
  have ev: "mk_vec 1 (\<lambda>t. (\<Sum>s<4. ?C ! s ! t * ?C ! s ! t) / Fin (real 4)) = [Fin 2]"
    by code_simp
  have tv: "(\<Sum>j<2. feature_variance 4 ?X [Fin 1, Fin 1] j) = Fin (5 / 2)"
    by code_simp
  have evr: "mk_vec 1 (\<lambda>t. (\<Sum>s<4. ?C ! s ! t * ?C ! s ! t) / Fin (real 4)
      / (\<Sum>j<2. feature_variance 4 ?X (fit_mean ?X None) j)) = [Fin (4 / 5)]"
    unfolding m tv by code_simp
  show ?thesis
    using explained_variance_fit[OF h1 h2 h3 h4 h5 h6 h7]
    unfolding ev evr by simp
qed

section \<open>The number of iterations\<close>













section \<open>Validation\<close>

text \<open>
  \<^verbatim>\<open>empca\<close> asserts both conditions before it calls a helper: whatever the helpers
  are, a shape of the weights that differs from the shape of the data, or more vectors
  than features, ends the call with AssertionError.
\<close>

lemma empca_asserts:
  assumes "(nrows data, ncols data) \<noteq> (nrows weights, ncols weights) \<or> ncols data < nvec"
  shows "empca u data weights nvec niter seed = Inl AssertionError"
  using assms by (auto simp: empca_def)

text \<open>
  \<^verbatim>\<open>EMPCA.fit_transform\<close> has no such check: it has stored the mean before it calls
  \<^verbatim>\<open>random_orthonormal\<close>, so that whatever this helper does with more components than
  features, the object has changed.
\<close>

lemma fit_transform_sets_mean_first:
  assumes "input_ok X weights"
    and "random_orthonormal u (n_components self) (ncols X) (random_state self) = Inl e"
  shows "fit_transform u self X weights
     = (Inl e, self\<lparr>mean_attr := Some (fit_mean X weights)\<rparr>)"
  using assms by (simp add: fit_transform_def Let_def)

text \<open>
  C2. The failing input: three components for data with two features. The class stores
  \<^verbatim>\<open>mean_\<close> and fails in the initialiser (DimensionError, by section 4.1 of the spec),
  leaving the object with the mean set; the function \<^verbatim>\<open>empca\<close> on the same data fails
  at its assertion.
\<close>

theorem fit_transform_no_validation:
  "fit_transform (spec_utils draw_units) (EMPCA_init 3 100 None)
     [[Fin 1, Fin 2], [Fin 3, Fin 4]] None
   = (Inl DimensionError, (EMPCA_init 3 100 None)\<lparr>mean_attr := Some [Fin 2, Fin 3]\<rparr>)
   \<and> (EMPCA_init 3 100 None)\<lparr>mean_attr := Some [Fin 2, Fin 3]\<rparr> \<noteq> EMPCA_init 3 100 None
   \<and> empca (spec_utils draw_units) [[Fin 1, Fin 2], [Fin 3, Fin 4]]
       [[Fin 1, Fin 1], [Fin 1, Fin 1]] 3 25 None = Inl AssertionError"
proof -
  let ?X = "[[Fin 1, Fin 2], [Fin 3, Fin 4]]"
  have ok: "input_ok ?X None"
    by (simp add: input_ok_def wf_mat_def nrows_def ncols_def)
  have ro: "random_orthonormal (spec_utils draw_units) (n_components (EMPCA_init 3 100 None))
      (ncols ?X) (random_state (EMPCA_init 3 100 None)) = Inl DimensionError"
    by (simp add: spec_utils_def spec_random_orthonormal_def EMPCA_init_def ncols_def)
  have m: "fit_mean ?X None = [Fin 2, Fin 3]"
    by code_simp
  have a: "fit_transform (spec_utils draw_units) (EMPCA_init 3 100 None) ?X None
      = (Inl DimensionError, (EMPCA_init 3 100 None)\<lparr>mean_attr := Some [Fin 2, Fin 3]\<rparr>)"
    using fit_transform_sets_mean_first[OF ok ro] unfolding m .
  have b: "(EMPCA_init 3 100 None)\<lparr>mean_attr := Some [Fin 2, Fin 3]\<rparr> \<noteq> EMPCA_init 3 100 None"
    by (simp add: EMPCA_init_def)
  have c: "empca (spec_utils draw_units) ?X [[Fin 1, Fin 1], [Fin 1, Fin 1]] 3 25 None
      = Inl AssertionError"
    by (rule empca_asserts) (simp add: ncols_def)
  show ?thesis
    using a b c by (intro conjI)
qed

section \<open>Values at entries of weight zero\<close>

lemma NaN_absorbs:
  "NaN * x = NaN" "x * NaN = NaN" "NaN - x = NaN" "x - NaN = NaN"
  "NaN + x = NaN" "x + NaN = NaN" "NaN / x = NaN" "x / NaN = NaN"
  by (cases x; simp)+

lemma sum_NaN:
  assumes "s < (n::nat)" and "f s = NaN"
  shows "(\<Sum>r<n. f r) = (NaN :: npfloat)"
proof -
  have "(\<Sum>r<n. f r) = f s + (\<Sum>r\<in>{..<n} - {s}. f r)"
    by (rule sum.remove) (use assms(1) in simp_all)
  then show ?thesis
    by (simp add: assms(2) NaN_absorbs)
qed

text \<open>
  A NaN in the data, at an entry of weight zero or not, makes the entry of its feature
  NaN in the row that the M-step computes, for every row index and whatever the
  coefficients and the basis are: the product \<open>w2 * d\<close> is NaN there, since
  \<open>0 * NaN = NaN\<close>.
\<close>

lemma wls_row_NaN:
  assumes "s < n" and "j < d" and "data ! s ! j = NaN"
  shows "wls_row n d data weights coeff eigvec i ! j = NaN"
proof -
  have "deflated data coeff eigvec i s j = NaN"
    by (simp add: deflated_def assms(3) NaN_absorbs)
  then have "coeff ! s ! i * (w2_entry weights s j * deflated data coeff eigvec i s j) = NaN"
    by (simp add: NaN_absorbs)
  then have "(\<Sum>r<n. coeff ! r ! i * (w2_entry weights r j * deflated data coeff eigvec i r j))
      = NaN"
    by (rule sum_NaN[OF assms(1)])
  then show ?thesis
    by (simp add: wls_row_def nth_mk_vec assms(2) NaN_absorbs)
qed

text \<open>The centred data keep the NaN of \<open>X\<close>, although the mean does not see it.\<close>

lemma centred_NaN:
  assumes "s < n" and "j < d" and "X ! s ! j = NaN"
  shows "mat_sub_row n d X m ! s ! j = NaN"
  using assms by (simp add: mat_sub_row_def nth_nth_mk_mat NaN_absorbs)

lemma sqrt_25_9: "sqrt (25 / 9) = 5 / 3"
  by (rule real_sqrt_unique) (simp_all add: power2_eq_square)

lemmas weighted_eval_defs = weighted_mean_def mat_mul_def row_at_def spec_solve_weighted_def
  lin_solve_def

lemma fit_finite_placeholder:
  "fit_transform (spec_utils draw_units) (EMPCA_init 1 1 None)
     [[Fin 1, Fin 7], [Fin 3, Fin 5], [Fin 2, Fin 1]]
     (Some [[Fin 1, Fin 0], [Fin 1, Fin 2], [Fin 1, Fin 1]])
   = (Inr [[Fin (- (5 / 3))], [Fin (5 / 3)], [Fin (- (32 / 15))]],
      \<lparr>n_components = 1, max_iter = 1, random_state = None,
       mean_attr = Some [Fin 2, Fin (11 / 3)],
       components_attr = Some [[Fin (3 / 5), Fin (4 / 5)]],
       explained_variance_attr = Some [Fin (758 / 225)],
       explained_variance_ratio_attr = Some [Fin (379 / 775)]\<rparr>)"
  by (simp add: fit_eval_defs weighted_eval_defs eval_defs numeral_2_eq_2 sqrt_25_9)

lemma fit_NaN_placeholder:
  "fit_transform (spec_utils draw_units) (EMPCA_init 1 1 None)
     [[Fin 1, NaN], [Fin 3, Fin 5], [Fin 2, Fin 1]]
     (Some [[Fin 1, Fin 0], [Fin 1, Fin 2], [Fin 1, Fin 1]])
   = (Inl RankDeficiencyError,
      (EMPCA_init 1 1 None)\<lparr>mean_attr := Some [Fin 2, Fin (11 / 3)]\<rparr>)"
  by (simp add: fit_eval_defs weighted_eval_defs eval_defs numeral_2_eq_2 sqrt_25_9)

text \<open>
  C3. The failing input: two data matrices that differ only at an entry of weight zero,
  one holding 7 there and the other NaN, fitted with the same weights, one component
  and one iteration. The means agree. With the finite value the fit returns a basis and
  coefficients; with NaN the centred data keep the NaN, entry 1 of every row that the
  M-step computes is NaN whatever the coefficients and the basis are, and with the
  reference helpers the fit ends in RankDeficiencyError instead of returning the same
  basis.
\<close>

theorem zero_weight_NaN_changes_fit:
  "fit_transform (spec_utils draw_units) (EMPCA_init 1 1 None)
     [[Fin 1, Fin 7], [Fin 3, Fin 5], [Fin 2, Fin 1]]
     (Some [[Fin 1, Fin 0], [Fin 1, Fin 2], [Fin 1, Fin 1]])
   = (Inr [[Fin (- (5 / 3))], [Fin (5 / 3)], [Fin (- (32 / 15))]],
      \<lparr>n_components = 1, max_iter = 1, random_state = None,
       mean_attr = Some [Fin 2, Fin (11 / 3)],
       components_attr = Some [[Fin (3 / 5), Fin (4 / 5)]],
       explained_variance_attr = Some [Fin (758 / 225)],
       explained_variance_ratio_attr = Some [Fin (379 / 775)]\<rparr>)
   \<and> fit_transform (spec_utils draw_units) (EMPCA_init 1 1 None)
     [[Fin 1, NaN], [Fin 3, Fin 5], [Fin 2, Fin 1]]
     (Some [[Fin 1, Fin 0], [Fin 1, Fin 2], [Fin 1, Fin 1]])
   = (Inl RankDeficiencyError,
      (EMPCA_init 1 1 None)\<lparr>mean_attr := Some [Fin 2, Fin (11 / 3)]\<rparr>)
   \<and> (\<forall>coeff eigvec i.
        wls_row 3 2
          (mat_sub_row 3 2 [[Fin 1, NaN], [Fin 3, Fin 5], [Fin 2, Fin 1]]
             [Fin 2, Fin (11 / 3)])
          (Some [[Fin 1, Fin 0], [Fin 1, Fin 2], [Fin 1, Fin 1]]) coeff eigvec i ! 1 = NaN)"
proof (intro conjI allI)
  fix coeff eigvec :: matrix and i :: nat
  have "mat_sub_row 3 2 [[Fin 1, NaN], [Fin 3, Fin 5], [Fin 2, Fin 1]]
      [Fin 2, Fin (11 / 3)] ! 0 ! 1 = NaN"
    by (rule centred_NaN) simp_all
  then show "wls_row 3 2
      (mat_sub_row 3 2 [[Fin 1, NaN], [Fin 3, Fin 5], [Fin 2, Fin 1]] [Fin 2, Fin (11 / 3)])
      (Some [[Fin 1, Fin 0], [Fin 1, Fin 2], [Fin 1, Fin 1]]) coeff eigvec i ! 1 = NaN"
    by (rule wls_row_NaN[rotated 2]) simp_all
qed (rule fit_finite_placeholder, rule fit_NaN_placeholder)

section \<open>Orthonormal rows\<close>

text \<open>
  The rows of \<open>Q\<close> have \<open>d\<close> entries each, every row has norm 1 and two different
  rows have inner product 0.
\<close>

definition orthonormal_rows :: "nat \<Rightarrow> matrix \<Rightarrow> bool" where
  "orthonormal_rows d Q \<longleftrightarrow>
     list_all (\<lambda>q. length q = d) Q
     \<and> list_all (\<lambda>a. list_all (\<lambda>b. inner (Q ! a) (Q ! b) = (if a = b then 1 else 0))
                    [0..<length Q]) [0..<length Q]"

lemma orthonormal_rowsD:
  assumes "orthonormal_rows d Q" and "a < length Q" and "b < length Q"
  shows "inner (Q ! a) (Q ! b) = (if a = b then 1 else 0)" and "length (Q ! a) = d"
  using assms by (auto simp: orthonormal_rows_def list_all_iff)

lemma orthonormal_rowsI:
  assumes "\<And>a. a < length Q \<Longrightarrow> length (Q ! a) = d"
    and "\<And>a b. a < length Q \<Longrightarrow> b < length Q \<Longrightarrow>
      inner (Q ! a) (Q ! b) = (if a = b then 1 else 0)"
  shows "orthonormal_rows d Q"
  using assms by (auto simp: orthonormal_rows_def list_all_iff in_set_conv_nth)

text \<open>Finite values and the real numbers that they hold.\<close>

fun re :: "npfloat \<Rightarrow> real" where
  "re (Fin a) = a"
| "re NaN = 0"

lemma Fin_re: "x \<noteq> NaN \<Longrightarrow> Fin (re x) = x"
  by (cases x) simp_all

lemma sum_Fin: "(\<Sum>j<(n::nat). Fin (g j)) = Fin (\<Sum>j<n. g j)"
  by (induction n) (simp_all add: zero_npfloat_def)

lemma sum_not_NaN:
  assumes "(\<Sum>j<(n::nat). f j) \<noteq> (NaN::npfloat)" and "j < n"
  shows "f j \<noteq> NaN"
  using assms sum_NaN[of j n f] by blast

lemma sum_re:
  assumes "\<And>j. j < (n::nat) \<Longrightarrow> f j \<noteq> NaN"
  shows "(\<Sum>j<n. f j) = Fin (\<Sum>j<n. re (f j))"
proof -
  have "(\<Sum>j<n. f j) = (\<Sum>j<n. Fin (re (f j)))"
    by (rule sum.cong) (simp_all add: Fin_re assms)
  then show ?thesis
    by (simp only: sum_Fin)
qed

lemma times_not_NaN: "x * y \<noteq> NaN \<Longrightarrow> x \<noteq> NaN \<and> y \<noteq> (NaN::npfloat)"
  by (cases x; cases y) simp_all

lemma minus_not_NaN: "x - y \<noteq> NaN \<Longrightarrow> x \<noteq> NaN \<and> y \<noteq> (NaN::npfloat)"
  by (cases x; cases y) simp_all

lemma divide_not_NaN: "x / y \<noteq> NaN \<Longrightarrow> x \<noteq> NaN \<and> y \<noteq> (NaN::npfloat)"
  by (cases x; cases y) simp_all

lemma re_times: "x \<noteq> NaN \<Longrightarrow> y \<noteq> NaN \<Longrightarrow> re (x * y) = re x * re y"
  by (cases x; cases y) simp_all

lemma re_minus: "x \<noteq> NaN \<Longrightarrow> y \<noteq> NaN \<Longrightarrow> re (x - y) = re x - re y"
  by (cases x; cases y) simp_all

lemma inner_fin:
  assumes "\<And>j. j < length x \<Longrightarrow> x ! j \<noteq> NaN" and "\<And>j. j < length x \<Longrightarrow> y ! j \<noteq> NaN"
  shows "inner x y = Fin (\<Sum>j<length x. re (x ! j) * re (y ! j))"
proof -
  have nn: "x ! j * y ! j \<noteq> NaN" if "j < length x" for j
    using assms(1)[OF that] assms(2)[OF that] by (cases "x ! j"; cases "y ! j") simp_all
  have "inner x y = Fin (\<Sum>j<length x. re (x ! j * y ! j))"
    unfolding inner_def by (rule sum_re) (rule nn)
  also have "(\<Sum>j<length x. re (x ! j * y ! j)) = (\<Sum>j<length x. re (x ! j) * re (y ! j))"
    by (rule sum.cong) (simp_all add: re_times assms)
  finally show ?thesis .
qed

lemma inner_self_fin:
  assumes "inner x x \<noteq> NaN" and "j < length x"
  shows "x ! j \<noteq> NaN"
proof -
  have "(\<Sum>i<length x. x ! i * x ! i) \<noteq> NaN"
    using assms(1) unfolding inner_def .
  then have "x ! j * x ! j \<noteq> NaN"
    using assms(2) by (rule sum_not_NaN)
  then show ?thesis
    by (rule times_not_NaN[THEN conjunct1])
qed

lemma length_gs_residual: "length (gs_residual qs v) = length v"
  by (simp add: gs_residual_def length_mk_vec)

lemma np_sqrt_Fin:
  assumes "np_sqrt x = Fin b" and "b \<noteq> 0"
  shows "\<exists>a. x = Fin a \<and> 0 < a \<and> b = sqrt a \<and> 0 < b"
proof (cases x)
  case (Fin a)
  with assms have "\<not> a < 0" and b: "b = sqrt a"
    by (auto split: if_splits)
  with assms(2) have "0 < a"
    by (cases "a = 0") auto
  with Fin b show ?thesis
    by simp
next
  case NaN
  with assms show ?thesis by simp
qed

lemma gs_step:
  assumes on: "orthonormal_rows d qs" and lv: "length v = d"
    and nrm: "np_sqrt (inner (gs_residual qs v) (gs_residual qs v)) = Fin b" and b0: "b \<noteq> 0"
  shows "orthonormal_rows d (qs @ [map (\<lambda>x. x / Fin b) (gs_residual qs v)])"
proof -
  define r where "r = gs_residual qs v"
  define m where "m = length qs"
  define V where "V j = re (v ! j)" for j
  define Q where "Q t j = re (qs ! t ! j)" for t j
  define c where "c t = (\<Sum>j<d. V j * Q t j)" for t
  define R where "R j = V j - (\<Sum>t<m. c t * Q t j)" for j
  define q' where "q' = map (\<lambda>x. x / Fin b) r"
  from np_sqrt_Fin[OF nrm b0] obtain a where
    a: "inner r r = Fin a" and apos: "0 < a" and ba: "b = sqrt a" and bpos: "0 < b"
    unfolding r_def by blast
  have bb: "b * b = a"
    using apos ba by simp
  have lr: "length r = d"
    by (simp add: r_def length_gs_residual lv)
  have rfin: "r ! j \<noteq> NaN" if "j < d" for j
    using a that lr by (intro inner_self_fin[of r]) simp_all
  have qlen: "length (qs ! t) = d" if "t < m" for t
    using orthonormal_rowsD(2)[OF on, of t t] that by (simp add: m_def)
  have qfin: "qs ! t ! j \<noteq> NaN" if "t < m" and "j < d" for t j
  proof -
    have "inner (qs ! t) (qs ! t) = 1"
      using orthonormal_rowsD(1)[OF on, of t t] that(1) by (simp add: m_def)
    then have "inner (qs ! t) (qs ! t) \<noteq> NaN"
      by (simp add: one_npfloat_def)
    then show ?thesis
      using that qlen by (intro inner_self_fin[of "qs ! t"]) simp_all
  qed
  have r_nth: "r ! j = v ! j - (\<Sum>t<m. inner v (qs ! t) * qs ! t ! j)" if "j < d" for j
    using that by (simp add: r_def gs_residual_def nth_mk_vec lv m_def)
  have vfin: "v ! j \<noteq> NaN" if "j < d" for j
    using rfin[OF that] unfolding r_nth[OF that] by (rule minus_not_NaN[THEN conjunct1])
  have vq: "inner v (qs ! t) = Fin (c t)" if "t < m" for t
    unfolding c_def V_def Q_def lv[symmetric]
    by (rule inner_fin) (use vfin qfin that lv in simp_all)
  have vV: "v ! j = Fin (V j)" if "j < d" for j
    by (simp add: V_def Fin_re vfin that)
  have qQ: "qs ! t ! j = Fin (Q t j)" if "t < m" and "j < d" for t j
    by (simp add: Q_def Fin_re qfin that)
  have rR: "r ! j = Fin (R j)" if "j < d" for j
  proof -
    have "(\<Sum>t<m. inner v (qs ! t) * qs ! t ! j) = (\<Sum>t<m. Fin (c t * Q t j))"
      by (rule sum.cong) (simp_all add: vq qQ that)
    then show ?thesis
      by (simp add: r_nth that vV sum_Fin R_def)
  qed
  have QQ: "(\<Sum>j<d. Q t j * Q s j) = (if t = s then 1 else 0)" if "t < m" and "s < m" for t s
  proof -
    have "inner (qs ! t) (qs ! s) = Fin (\<Sum>j<d. Q t j * Q s j)"
      unfolding Q_def qlen[OF that(1), symmetric]
      by (rule inner_fin) (use qfin that qlen in simp_all)
    moreover have "inner (qs ! t) (qs ! s) = (if t = s then 1 else 0)"
      using orthonormal_rowsD(1)[OF on, of t s] that by (simp add: m_def)
    ultimately show ?thesis
      by (simp add: one_npfloat_def zero_npfloat_def split: if_splits)
  qed
  have RQ: "(\<Sum>j<d. R j * Q s j) = 0" if "s < m" for s
  proof -
    have "(\<Sum>j<d. R j * Q s j) = (\<Sum>j<d. V j * Q s j) - (\<Sum>j<d. \<Sum>t<m. c t * (Q t j * Q s j))"
      by (simp add: R_def left_diff_distrib sum_subtractf sum_distrib_right mult.assoc)
    also have "(\<Sum>j<d. \<Sum>t<m. c t * (Q t j * Q s j)) = (\<Sum>t<m. c t * (\<Sum>j<d. Q t j * Q s j))"
      by (subst sum.swap) (simp add: sum_distrib_left)
    also have "\<dots> = (\<Sum>t<m. c t * (if t = s then 1 else 0))"
      by (rule sum.cong) (simp_all add: QQ that)
    also have "\<dots> = (\<Sum>t<m. if t = s then c t else 0)"
      by (rule sum.cong) simp_all
    also have "\<dots> = c s"
      using that by (subst sum.delta) simp_all
    finally show ?thesis
      by (simp add: c_def)
  qed
  have RR: "(\<Sum>j<d. R j * R j) = a"
  proof -
    have "inner r r = Fin (\<Sum>j<d. re (r ! j) * re (r ! j))"
      unfolding lr[symmetric] by (rule inner_fin) (use rfin lr in simp_all)
    also have "(\<Sum>j<d. re (r ! j) * re (r ! j)) = (\<Sum>j<d. R j * R j)"
      by (rule sum.cong) (simp_all add: rR)
    finally show ?thesis
      using a by simp
  qed
  have lq': "length q' = d"
    by (simp add: q'_def lr)
  have q'n: "q' ! j = Fin (R j / b)" if "j < d" for j
    using that b0 by (simp add: q'_def lr rR)
  have in1: "inner q' q' = 1"
  proof -
    have "inner q' q' = (\<Sum>j<d. Fin (R j / b * (R j / b)))"
      unfolding inner_def lq' by (rule sum.cong) (simp_all add: q'n)
    also have "\<dots> = Fin ((\<Sum>j<d. R j * R j) / (b * b))"
      by (simp add: sum_Fin sum_divide_distrib)
    finally show ?thesis
      using apos by (simp add: RR bb one_npfloat_def)
  qed
  have in2: "inner q' (qs ! s) = 0" if "s < m" for s
  proof -
    have "inner q' (qs ! s) = (\<Sum>j<d. Fin (R j * Q s j / b))"
      unfolding inner_def lq' by (rule sum.cong) (simp_all add: q'n qQ that)
    also have "\<dots> = Fin ((\<Sum>j<d. R j * Q s j) / b)"
      by (simp add: sum_Fin sum_divide_distrib)
    finally show ?thesis
      by (simp add: RQ that zero_npfloat_def)
  qed
  have in3: "inner (qs ! s) q' = 0" if "s < m" for s
  proof -
    have "inner (qs ! s) q' = (\<Sum>j<d. Fin (R j * Q s j / b))"
      unfolding inner_def qlen[OF that] by (rule sum.cong) (simp_all add: q'n qQ that)
    also have "\<dots> = Fin ((\<Sum>j<d. R j * Q s j) / b)"
      by (simp add: sum_Fin sum_divide_distrib)
    finally show ?thesis
      by (simp add: RQ that zero_npfloat_def)
  qed
  have "orthonormal_rows d (qs @ [q'])"
  proof (rule orthonormal_rowsI)
    fix p assume "p < length (qs @ [q'])"
    then show "length ((qs @ [q']) ! p) = d"
      using qlen lq' by (cases "p < m") (simp_all add: nth_append m_def)
  next
    fix p p' assume "p < length (qs @ [q'])" and "p' < length (qs @ [q'])"
    then have p: "p < m \<or> p = m" and p': "p' < m \<or> p' = m"
      by (auto simp: m_def)
    show "inner ((qs @ [q']) ! p) ((qs @ [q']) ! p') = (if p = p' then 1 else 0)"
    proof (cases "p < m")
      case True
      show ?thesis
      proof (cases "p' < m")
        case p'm: True
        with True show ?thesis
          using orthonormal_rowsD(1)[OF on, of p p'] by (simp add: nth_append m_def)
      next
        case False
        with p' have "p' = m" by simp
        with True show ?thesis
          using in3[OF True] by (simp add: nth_append m_def)
      qed
    next
      case False
      with p have pm: "p = m" by simp
      show ?thesis
      proof (cases "p' < m")
        case True
        with pm show ?thesis
          using in2[OF True] by (simp add: nth_append m_def)
      next
        case False
        with p' have "p' = m" by simp
        with pm show ?thesis
          using in1 by (simp add: nth_append m_def)
      qed
    qed
  qed
  then show ?thesis
    by (simp add: q'_def r_def)
qed

lemma orthonormal_rows_Nil: "orthonormal_rows d []"
  by (simp add: orthonormal_rows_def)

lemma gram_schmidt_orthonormal:
  "orthonormal_rows d qs \<Longrightarrow> list_all (\<lambda>v. length v = d) vs \<Longrightarrow> gram_schmidt qs vs = Inr Q \<Longrightarrow>
     orthonormal_rows d Q \<and> length Q = length qs + length vs"
proof (induction vs arbitrary: qs)
  case Nil
  then show ?case by simp
next
  case (Cons v vs)
  let ?r = "gs_residual qs v"
  let ?nrm = "np_sqrt (inner ?r ?r)"
  from Cons.prems(3) have ok: "\<not> (?nrm = 0 \<or> ?nrm = NaN)"
    and rest: "gram_schmidt (qs @ [map (\<lambda>x. x / ?nrm) ?r]) vs = Inr Q"
    by (simp_all add: Let_def split: if_splits)
  from ok obtain b where nrm: "?nrm = Fin b" and b0: "b \<noteq> 0"
    by (cases ?nrm) (simp_all add: zero_npfloat_def)
  have lv: "length v = d" and lvs: "list_all (\<lambda>v. length v = d) vs"
    using Cons.prems(2) by simp_all
  have "orthonormal_rows d (qs @ [map (\<lambda>x. x / Fin b) ?r])"
    by (rule gs_step[OF Cons.prems(1) lv nrm b0])
  then have "orthonormal_rows d (qs @ [map (\<lambda>x. x / ?nrm) ?r])"
    by (simp only: nrm)
  from Cons.IH[OF this lvs rest] show ?case
    by simp
qed

text \<open>
  Whenever the reference Orthonormalizer returns, its result has the shape of the
  argument and orthonormal rows.
\<close>

lemma spec_orthonormalize_orthonormal:
  assumes "wf_mat m d A" and "spec_orthonormalize A = Inr Q"
  shows "orthonormal_rows d Q" and "wf_mat m d Q"
proof -
  have vs: "list_all (\<lambda>v. length v = d) A" and m: "length A = m"
    using assms(1) by (simp_all add: wf_mat_def)
  have "orthonormal_rows d Q \<and> length Q = length ([]::matrix) + length A"
    by (rule gram_schmidt_orthonormal[OF orthonormal_rows_Nil vs])
      (use assms(2) in \<open>simp add: spec_orthonormalize_def\<close>)
  then have on: "orthonormal_rows d Q" and lQ: "length Q = m"
    by (simp_all add: m)
  show "orthonormal_rows d Q"
    by (rule on)
  show "wf_mat m d Q"
    using on lQ by (simp add: wf_mat_def orthonormal_rows_def)
qed

lemma Mstep_body_orthonormal:
  assumes "wf_mat n d data" and "wf_mat k d eigvec" and "wf_mat n k coeff"
    and "case weights of None \<Rightarrow> True | Some W \<Rightarrow> wf_mat n d W" and "i < k"
    and "orthonormalize u = spec_orthonormalize"
    and "Mstep_body u data weights coeff i eigvec = Inr E"
  shows "orthonormal_rows d (take (Suc i) E)"
proof -
  let ?E1 = "eigvec[i := wls_row n d data weights coeff eigvec i]"
  have E1: "wf_mat (Suc i) d (take (Suc i) ?E1)"
    using wf_mat_update[OF assms(2) length_wls_row, of i n data weights coeff eigvec i] assms(5)
    unfolding wf_mat_def list_all_iff by (auto dest: in_set_takeD)
  from assms(7) obtain Q where Q: "spec_orthonormalize (take (Suc i) ?E1) = Inr Q"
    and E: "E = Q @ drop (Suc i) ?E1"
    unfolding Mstep_body_eq[OF assms(1-5)] assms(6)
    by (auto split: sum.splits if_splits)
  have "orthonormal_rows d Q" and "wf_mat (Suc i) d Q"
    by (rule spec_orthonormalize_orthonormal[OF E1 Q])+
  then show ?thesis
    by (simp add: E wf_mat_def)
qed

text \<open>
  C5. Let the shapes conform, let the data have a sample, and let the Orthonormalizer
  be the reference one of section 4.2 of the spec (Gram-Schmidt, rejecting a degenerate
  row). Whenever the passes of the M-step for the rows \<open>0..i\<close> return a basis \<open>E\<close>, the
  rows \<open>0..i\<close> of \<open>E\<close> are orthonormal, and the pass for row \<open>i + 1\<close>, if there is one,
  runs on this \<open>E\<close>: the invariant is restored after every single row update, before the
  next row is processed. Whenever the M-step returns a basis, all its rows are
  orthonormal and it has the shape \<open>(k, d)\<close>. Nothing is assumed about the basis that
  the M-step receives.
\<close>

theorem Mstep_orthonormal:
  assumes "0 < n" and "wf_mat n d data" and "wf_mat k d eigvec" and "wf_mat n k coeff"
    and "case weights of None \<Rightarrow> True | Some W \<Rightarrow> wf_mat n d W"
    and "orthonormalize u = spec_orthonormalize"
  shows "(\<forall>i E. i < k \<longrightarrow> Mstep_loop u data weights coeff [0..<Suc i] eigvec = Inr E \<longrightarrow>
            wf_mat k d E \<and> orthonormal_rows d (take (Suc i) E)
            \<and> (Suc i < k \<longrightarrow>
                 Mstep_loop u data weights coeff [0..<Suc (Suc i)] eigvec
                 = Mstep_body u data weights coeff (Suc i) E))
         \<and> (\<forall>E. Mstep u data weights eigvec coeff = Inr E \<longrightarrow>
              wf_mat k d E \<and> orthonormal_rows d E)"
proof -
  have prefix: "wf_mat k d E \<and> orthonormal_rows d (take (Suc i) E)
      \<and> (Suc i < k \<longrightarrow>
           Mstep_loop u data weights coeff [0..<Suc (Suc i)] eigvec
           = Mstep_body u data weights coeff (Suc i) E)"
    if i: "i < k" and run: "Mstep_loop u data weights coeff [0..<Suc i] eigvec = Inr E" for i E
  proof -
    have split: "[0..<Suc i] = [0..<i] @ [i]"
      by simp
    from run obtain E0 where
      E0: "Mstep_loop u data weights coeff [0..<i] eigvec = Inr E0" and
      body: "Mstep_body u data weights coeff i E0 = Inr E"
      unfolding split Mstep_loop_append by (auto split: sum.splits)
    have "list_all (\<lambda>x. x < k) [0..<i]"
      using i by (simp add: list_all_iff)
    then have wE0: "wf_mat k d E0"
      by (rule Mstep_loop_wf[OF assms(2,4,5,3) _ E0])
    have wE: "wf_mat k d E"
      by (rule Mstep_body_wf[OF assms(2) wE0 assms(4,5) i body])
    have on: "orthonormal_rows d (take (Suc i) E)"
      by (rule Mstep_body_orthonormal[OF assms(2) wE0 assms(4,5) i assms(6) body])
    have "[0..<Suc (Suc i)] = [0..<Suc i] @ [Suc i]"
      by simp
    then have "Mstep_loop u data weights coeff [0..<Suc (Suc i)] eigvec =
        Mstep_loop u data weights coeff [Suc i] E"
      using run by (simp only: Mstep_loop_append sum.case)
    also have "\<dots> = Mstep_body u data weights coeff (Suc i) E"
      by (cases "Mstep_body u data weights coeff (Suc i) E") simp_all
    finally show ?thesis
      using wE on by simp
  qed
  have whole: "wf_mat k d E \<and> orthonormal_rows d E"
    if run: "Mstep u data weights eigvec coeff = Inr E" for E
  proof (cases k)
    case 0
    with assms(3) have "eigvec = []"
      by (simp add: wf_mat_def)
    with run have "E = []"
      by (simp add: Mstep_def nrows_def)
    with 0 show ?thesis
      by (simp add: wf_mat_def orthonormal_rows_Nil)
  next
    case (Suc i)
    have "Mstep_loop u data weights coeff [0..<Suc i] eigvec = Inr E"
      using run assms(3) by (simp add: Mstep_def nrows_def wf_mat_length Suc)
    from prefix[OF _ this] Suc have "wf_mat k d E" and "orthonormal_rows d (take k E)"
      by simp_all
    then show ?thesis
      by (simp add: wf_mat_def)
  qed
  show ?thesis
    using prefix whole by blast
qed

lemma sqrt_25: "sqrt 25 = 5"
  by (rule real_sqrt_unique) (simp_all add: power2_eq_square)

lemma sqrt_25_4: "sqrt (25 / 4) = 5 / 2"
  by (rule real_sqrt_unique) (simp_all add: power2_eq_square)

lemma Mstep_example_pass0:
  "Mstep_loop (spec_utils draw_units) [[Fin 3, Fin 4], [Fin (- 4), Fin 3]] None
     [[Fin 1, Fin 1], [Fin 0, Fin 1]] [0..<Suc 0] [[Fin 7, Fin 1], [Fin 2, Fin 2]]
   = Inr [[Fin (3 / 5), Fin (4 / 5)], [Fin 2, Fin 2]]"
  by (simp add: eval_defs numeral_2_eq_2 sqrt_25)

lemma Mstep_example_pass1:
  "Mstep_body (spec_utils draw_units) [[Fin 3, Fin 4], [Fin (- 4), Fin 3]] None
     [[Fin 1, Fin 1], [Fin 0, Fin 1]] (Suc 0) [[Fin (3 / 5), Fin (4 / 5)], [Fin 2, Fin 2]]
   = Inr [[Fin (3 / 5), Fin (4 / 5)], [Fin (- (4 / 5)), Fin (3 / 5)]]"
  by (simp add: eval_defs numeral_2_eq_2 sqrt_25_4)

lemma Mstep_example:
  "Mstep (spec_utils draw_units) [[Fin 3, Fin 4], [Fin (- 4), Fin 3]] None
     [[Fin 7, Fin 1], [Fin 2, Fin 2]] [[Fin 1, Fin 1], [Fin 0, Fin 1]]
   = Inr [[Fin (3 / 5), Fin (4 / 5)], [Fin (- (4 / 5)), Fin (3 / 5)]]"
proof -
  have "[0..<nrows [[Fin 7, Fin 1], [Fin 2, Fin 2]]] = [0..<Suc 0] @ [Suc 0]"
    by (simp add: nrows_def)
  then show ?thesis
    unfolding Mstep_def
    by (simp only: Mstep_loop_append Mstep_example_pass0 sum.case Mstep_loop.simps
        Mstep_example_pass1)
qed

text \<open>
  An instance: two samples, two features, two components, no weights, and a basis
  that is not orthonormal when the M-step receives it. The first pass sets row 0 to
  \<open>(3, 4)\<close>, normalised to \<open>(3/5, 4/5)\<close>; the second pass sets row 1 to
  \<open>(-4/5, 31/10)\<close>, which is not orthogonal to row 0, and the Orthonormalizer returns
  \<open>(-4/5, 3/5)\<close> for it.
\<close>

theorem Mstep_orthonormal_witness:
  "Mstep_loop (spec_utils draw_units) [[Fin 3, Fin 4], [Fin (- 4), Fin 3]] None
     [[Fin 1, Fin 1], [Fin 0, Fin 1]] [0..<Suc 0] [[Fin 7, Fin 1], [Fin 2, Fin 2]]
   = Inr [[Fin (3 / 5), Fin (4 / 5)], [Fin 2, Fin 2]]
   \<and> orthonormal_rows 2 (take (Suc 0) [[Fin (3 / 5), Fin (4 / 5)], [Fin 2, Fin 2]])
   \<and> Mstep (spec_utils draw_units) [[Fin 3, Fin 4], [Fin (- 4), Fin 3]] None
       [[Fin 7, Fin 1], [Fin 2, Fin 2]] [[Fin 1, Fin 1], [Fin 0, Fin 1]]
     = Inr [[Fin (3 / 5), Fin (4 / 5)], [Fin (- (4 / 5)), Fin (3 / 5)]]
   \<and> orthonormal_rows 2 [[Fin (3 / 5), Fin (4 / 5)], [Fin (- (4 / 5)), Fin (3 / 5)]]
   \<and> \<not> orthonormal_rows 2 [[Fin 7, Fin 1], [Fin 2, Fin 2]]"
proof -
  let ?u = "spec_utils draw_units"
  let ?data = "[[Fin 3, Fin 4], [Fin (- 4), Fin 3]]"
  let ?coeff = "[[Fin 1, Fin 1], [Fin 0, Fin 1]]"
  let ?B = "[[Fin 7, Fin 1], [Fin 2, Fin 2]]"
  have h1: "(0::nat) < 2"
    by simp
  have h2: "wf_mat 2 2 ?data" and h3: "wf_mat 2 2 ?B" and h4: "wf_mat 2 2 ?coeff"
    by (simp_all add: wf_mat_def)
  have h5: "case None of None \<Rightarrow> True | Some W \<Rightarrow> wf_mat 2 2 W"
    by simp
  have h6: "orthonormalize ?u = spec_orthonormalize"
    by (simp add: spec_utils_def)
  note inv = Mstep_orthonormal[OF h1 h2 h3 h4 h5 h6]
  have i0: "(0::nat) < 2"
    by simp
  have a: "orthonormal_rows 2 (take (Suc 0) [[Fin (3 / 5), Fin (4 / 5)], [Fin 2, Fin 2]])"
    using inv[THEN conjunct1, rule_format, OF i0 Mstep_example_pass0] by (elim conjE)
  have b: "orthonormal_rows 2 [[Fin (3 / 5), Fin (4 / 5)], [Fin (- (4 / 5)), Fin (3 / 5)]]"
    using inv[THEN conjunct2, rule_format, OF Mstep_example] by (elim conjE)
  have c: "\<not> orthonormal_rows 2 ?B"
    by (simp add: orthonormal_rows_def inner_def numeral_2_eq_2 zero_npfloat_def one_npfloat_def)
  show ?thesis
    by (intro conjI) (rule Mstep_example_pass0, rule a, rule Mstep_example, rule b, rule c)
qed

end
